theory Spec2Isabelle
  imports Complex_Main
begin

section \<open>Strings and numbers of the host language\<close>

text \<open>
  The analysis engine lives in the component \<^verbatim>\<open>StudentPerformanceApp\<close> (the second
  file concatenated into \<^verbatim>\<open>src/app/api/generate-feedback/route.ts\<close>). It works on
  spreadsheet cells, which are JavaScript strings, and on JavaScript numbers.

  \<^item> A cell is a \<open>string\<close> (a list of ASCII characters). Characters outside ASCII are
    left alone by \<open>toUpperCase\<close> and are never white space here.
  \<^item> A number is an exact rational (\<open>rat\<close>): the value a decimal literal denotes, and
    exact sums and quotients of such values. IEEE rounding, the infinities and NaN
    arithmetic are not represented; "not a number" out of \<open>parseFloat\<close> is \<open>None\<close>.
  \<^item> An object used as a dictionary is a map \<open>string \<rightharpoonup> 'v\<close>; it is only read through
    \<open>obj[key]\<close> in the code modelled here.
\<close>

definition isWhiteSpace :: "char \<Rightarrow> bool" where
  "isWhiteSpace c = (c \<in> set [CHR 0x09, CHR 0x0A, CHR 0x0B, CHR 0x0C, CHR 0x0D, CHR 0x20])"

text \<open>\<^verbatim>\<open>String.prototype.trim\<close>: white space is removed at both ends.\<close>

definition trim :: "string \<Rightarrow> string" where
  "trim s = rev (dropWhile isWhiteSpace (rev (dropWhile isWhiteSpace s)))"

definition toUpperChar :: "char \<Rightarrow> char" where
  "toUpperChar c =
     (if c \<in> set ''abcdefghijklmnopqrstuvwxyz'' then char_of (of_char c - (32::nat)) else c)"

definition toUpperCase :: "string \<Rightarrow> string" where
  "toUpperCase s = map toUpperChar s"

definition isDigit :: "char \<Rightarrow> bool" where
  "isDigit c = (c \<in> set ''0123456789'')"

definition digitVal :: "char \<Rightarrow> nat" where
  "digitVal c = of_char c - 48"

definition digitsValue :: "string \<Rightarrow> nat" where
  "digitsValue ds = foldl (\<lambda>a c. 10 * a + digitVal c) 0 ds"

subsection \<open>parseFloat\<close>

text \<open>
  \<^verbatim>\<open>parseFloat\<close> skips leading white space and reads the longest prefix that is a
  decimal literal: an optional sign, digits with an optional fraction (or a fraction
  alone), and an optional exponent part, which counts only when at least one digit
  follows the \<open>E\<close> and its optional sign. Whatever follows the prefix is ignored. With no
  such prefix the result is NaN, here \<open>None\<close>. The literal \<^verbatim>\<open>Infinity\<close> is not read:
  every caller upper-cases its argument first, and the literal is mixed case.
\<close>

definition scaleByExponent :: "rat \<Rightarrow> int \<Rightarrow> rat" where
  "scaleByExponent v e = (if 0 \<le> e then v * 10 ^ nat e else v / 10 ^ nat (- e))"

definition readDigitsOr0 :: "string \<Rightarrow> int" where
  "readDigitsOr0 r = int (digitsValue (takeWhile isDigit r))"

definition readExponent :: "string \<Rightarrow> int" where
  "readExponent r =
     (case r of
        [] \<Rightarrow> 0
      | c # r1 \<Rightarrow>
          if c = CHR ''E'' \<or> c = CHR ''e'' then
            (case r1 of
               [] \<Rightarrow> 0
             | s # r2 \<Rightarrow>
                 if s = CHR ''-'' then - readDigitsOr0 r2
                 else if s = CHR ''+'' then readDigitsOr0 r2
                 else readDigitsOr0 r1)
          else 0)"

definition readFraction :: "nat \<Rightarrow> string \<Rightarrow> rat" where
  "readFraction ip r1 =
     (let fp = takeWhile isDigit r1; r2 = dropWhile isDigit r1
      in scaleByExponent (of_nat ip + of_nat (digitsValue fp) / 10 ^ length fp) (readExponent r2))"

definition readUnsigned :: "string \<Rightarrow> rat option" where
  "readUnsigned s =
     (let ip = takeWhile isDigit s; r = dropWhile isDigit s
      in if ip \<noteq> [] then
           (case r of
              [] \<Rightarrow> Some (of_nat (digitsValue ip))
            | c # r1 \<Rightarrow>
                if c = CHR ''.'' then Some (readFraction (digitsValue ip) r1)
                else Some (scaleByExponent (of_nat (digitsValue ip)) (readExponent r)))
         else
           (case r of
              [] \<Rightarrow> None
            | c # r1 \<Rightarrow>
                if c = CHR ''.'' \<and> takeWhile isDigit r1 \<noteq> [] then Some (readFraction 0 r1)
                else None))"

definition parseFloat :: "string \<Rightarrow> rat option" where
  "parseFloat s =
     (case dropWhile isWhiteSpace s of
        [] \<Rightarrow> None
      | c # r \<Rightarrow>
          if c = CHR ''-'' then map_option uminus (readUnsigned r)
          else if c = CHR ''+'' then readUnsigned r
          else readUnsigned (c # r))"

subsection \<open>Number.prototype.toFixed(2)\<close>

text \<open>
  \<^verbatim>\<open>x.toFixed(2)\<close> takes the sign off, picks the integer \<open>n\<close> with \<open>n / 100\<close> nearest to
  \<open>|x|\<close> (the larger one on a tie), writes \<open>n\<close> in decimal, pads it with zeros to three
  digits and puts the point before the last two. From \<open>10\<^sup>2\<^sup>1\<close> on it gives up and returns
  \<^verbatim>\<open>String(x)\<close>, which is exponent notation (\<^verbatim>\<open>"1e+22"\<close>); that text is kept abstract
  here as the number it denotes.
\<close>

datatype numberText = Fixed string | ExponentNotation rat

definition digitChar :: "nat \<Rightarrow> char" where
  "digitChar d = ''0123456789'' ! d"

fun decimalDigits :: "nat \<Rightarrow> string" where
  "decimalDigits n =
     (if n < 10 then [digitChar n] else decimalDigits (n div 10) @ [digitChar (n mod 10)])"

declare decimalDigits.simps [simp del]

definition padTo3 :: "string \<Rightarrow> string" where
  "padTo3 ds = replicate (3 - length ds) (CHR ''0'') @ ds"

definition toFixed2 :: "rat \<Rightarrow> numberText" where
  "toFixed2 x =
     (if 10 ^ 21 \<le> \<bar>x\<bar> then ExponentNotation x
      else
        let n = nat \<lfloor>\<bar>x\<bar> * 100 + 1 / 2\<rfloor>;
            m = padTo3 (decimalDigits n);
            k = length m - 2
        in Fixed ((if x < 0 then ''-'' else '''') @ take k m @ ''.'' @ drop k m))"

text \<open>\<^verbatim>\<open>parseFloat(x.toFixed(2))\<close>, the rounding used for chart points.\<close>

definition parseNumberText :: "numberText \<Rightarrow> rat option" where
  "parseNumberText t = (case t of Fixed s \<Rightarrow> parseFloat s | ExponentNotation x \<Rightarrow> Some x)"

section \<open>Grade normalisation\<close>

text \<open>
  \<^verbatim>\<open>convertGradeToNumeric\<close> of \<^verbatim>\<open>StudentPerformanceApp\<close> (route.ts, lines 311-324);
  \<^verbatim>\<open>StudentPendingActivities\<close> and \<^verbatim>\<open>StudentProgressChart\<close> carry literal copies of it.
  \<open>None\<close> is the \<^verbatim>\<open>null\<close> it returns.
\<close>

definition convertGradeToNumeric :: "string \<Rightarrow> rat option" where
  "convertGradeToNumeric grade =
     (let g = toUpperCase grade
      in if g = ''L'' then Some 9
         else if g = ''ML'' then Some 6
         else if g = ''NL'' then Some 3
         else (case parseFloat g of
                 Some numGrade \<Rightarrow>
                   Some (if numGrade > 10 then (numGrade / 100) * 10 else numGrade)
               | None \<Rightarrow> None))"

text \<open>\<^verbatim>\<open>isQualitativeGrade\<close> (route.ts, lines 327-330).\<close>

definition isQualitativeGrade :: "string \<Rightarrow> bool" where
  "isQualitativeGrade grade = (toUpperCase grade \<in> set [''L'', ''ML'', ''NL''])"


section \<open>The data model\<close>

text \<open>
  The interfaces \<^verbatim>\<open>StudentGradeEntry\<close> and \<^verbatim>\<open>StudentSheetData\<close> (route.ts, lines
  98-106). \<open>grades\<close> is the object keyed by date label: \<open>grades r d = None\<close> is
  \<^verbatim>\<open>r.grades[d] === undefined\<close>.
\<close>

record StudentGradeEntry =
  topic :: string
  grade :: string

record StudentSheetData =
  studentName :: string
  grades :: "string \<rightharpoonup> StudentGradeEntry"

text \<open>
  The raw grid \<^verbatim>\<open>jsonSheet\<close> is an array of rows of cells; rows may be shorter than the
  header row. \<open>cell row j\<close> reads \<^verbatim>\<open>row[j]\<close> with a missing cell as the empty string, so
  that \<^verbatim>\<open>row[j] ? String(row[j]).trim() : ''\<close> is \<open>trim (cell row j)\<close>.
\<close>

type_synonym sheet = "string list list"

definition cell :: "string list \<Rightarrow> nat \<Rightarrow> string" where
  "cell row j = (if j < length row then row ! j else [])"

section \<open>Ingestion: processXLSXSheetData\<close>

datatype sheetError = NotEnoughRows

text \<open>
  \<^verbatim>\<open>jsonSheet[0]\<close> and \<^verbatim>\<open>jsonSheet[1]\<close>, which the code reads after it has checked that
  there are three rows.
\<close>

definition headersOf :: "sheet \<Rightarrow> string list" where
  "headersOf jsonSheet = (if 0 < length jsonSheet then jsonSheet ! 0 else [])"

definition topicsOf :: "sheet \<Rightarrow> string list" where
  "topicsOf jsonSheet = (if 1 < length jsonSheet then jsonSheet ! 1 else [])"

text \<open>\<^verbatim>\<open>headers.slice(1).map(dateStr => String(dateStr || '').trim())\<close> (line 355).\<close>

definition datesOf :: "sheet \<Rightarrow> string list" where
  "datesOf jsonSheet = map trim (drop 1 (headersOf jsonSheet))"

text \<open>
  First pass (lines 361-375). The inner loop over the student rows, left at the first
  cell that converts or is qualitative.
\<close>

fun hasValidGradeLoop :: "string list list \<Rightarrow> nat \<Rightarrow> bool" where
  "hasValidGradeLoop [] j = False"
| "hasValidGradeLoop (row # rows) j =
     (let g = trim (cell row j)
      in if convertGradeToNumeric g \<noteq> None \<or> isQualitativeGrade g then True
         else hasValidGradeLoop rows j)"

definition hasValidGrade :: "sheet \<Rightarrow> nat \<Rightarrow> bool" where
  "hasValidGrade jsonSheet j = hasValidGradeLoop (drop 2 jsonSheet) j"

text \<open>The outer loop: \<^verbatim>\<open>validActivityColumns[date] = hasValidGrade\<close> for \<open>j = 1, 2, ...\<close>\<close>

definition validActivityColumns :: "sheet \<Rightarrow> (string \<rightharpoonup> bool)" where
  "validActivityColumns jsonSheet =
     foldl (\<lambda>m j. m(datesOf jsonSheet ! (j - 1) \<mapsto> hasValidGrade jsonSheet j))
       Map.empty [1..<length (headersOf jsonSheet)]"

text \<open>
  Second pass (lines 378-401). For one row, the loop over the columns that fills
  \<^verbatim>\<open>studentGrades\<close>; the cell is stored trimmed, whatever it holds.
\<close>

definition studentGrades :: "sheet \<Rightarrow> string list \<Rightarrow> (string \<rightharpoonup> StudentGradeEntry)" where
  "studentGrades jsonSheet row =
     foldl (\<lambda>sg j.
              let d = datesOf jsonSheet ! (j - 1)
              in if validActivityColumns jsonSheet d = Some True
                 then sg(d \<mapsto> \<lparr>topic = trim (cell (topicsOf jsonSheet) j), grade = trim (cell row j)\<rparr>)
                 else sg)
       Map.empty [1..<length (headersOf jsonSheet)]"

definition pushStudent :: "sheet \<Rightarrow> StudentSheetData list \<Rightarrow> string list \<Rightarrow> StudentSheetData list" where
  "pushStudent jsonSheet data row =
     (if trim (cell row 0) \<noteq> []
      then data @ [\<lparr>studentName = trim (cell row 0), grades = studentGrades jsonSheet row\<rparr>]
      else data)"

definition processXLSXSheetData :: "sheet \<Rightarrow> sheetError + (StudentSheetData list \<times> string list)" where
  "processXLSXSheetData jsonSheet =
     (if length jsonSheet < 3 then Inl NotEnoughRows
      else Inr (foldl (pushStudent jsonSheet) [] (drop 2 jsonSheet), datesOf jsonSheet))"

section \<open>Analysis: performAnalysis\<close>






subsection \<open>The date range (lines 416-429)\<close>





subsection \<open>One student (lines 452-551)\<close>











section \<open>Pending activities: StudentPendingActivities\<close>





section \<open>The specification's wording of the per-student figures\<close>

text \<open>
  Section 4.5 of the specification, as definitions of their own, to be compared with what
  the loops of \<^verbatim>\<open>performAnalysis\<close> compute. \<open>rel\<close> is the selected date range and \<open>s\<close> a
  student record.
\<close>








text \<open>A text with exactly two decimal places: an optional minus sign, at least one digit,
  a point and two digits.\<close>

definition isTwoDecimalText :: "numberText \<Rightarrow> bool" where
  "isTwoDecimalText t =
     (case t of
        ExponentNotation x \<Rightarrow> False
      | Fixed s \<Rightarrow>
          (let u = (if take 1 s = ''-'' then drop 1 s else s);
               k = length u - 3
           in 4 \<le> length u \<and> list_all isDigit (take k u) \<and> u ! k = CHR ''.'' \<and>
              isDigit (u ! (k + 1)) \<and> isDigit (u ! (k + 2))))"

section \<open>Example sheets\<close>

text \<open>
  The end-to-end scenario of the specification: dates \<open>D1, D2\<close>, topics \<open>T1, T2\<close>, Ana with
  \<open>L, ML\<close> and Beto with a blank cell and \<open>7\<close>.
\<close>

definition scenarioSheet :: sheet where
  "scenarioSheet =
     [['''', ''D1'', ''D2''],
      ['''', ''T1'', ''T2''],
      [''Ana'', ''L'', ''ML''],
      [''Beto'', '''', ''7'']]"


section \<open>Example students\<close>










section \<open>Properties of the normaliser\<close>

lemma convert_qualitative:
  "isQualitativeGrade g \<Longrightarrow> convertGradeToNumeric g \<in> {Some 3, Some 6, Some 9}"
  by (auto simp: isQualitativeGrade_def convertGradeToNumeric_def Let_def)

lemma convert_not_qualitative:
  "\<not> isQualitativeGrade g \<Longrightarrow>
   convertGradeToNumeric g =
     map_option (\<lambda>v. if v > 10 then (v / 100) * 10 else v) (parseFloat (toUpperCase g))"
  by (auto simp: isQualitativeGrade_def convertGradeToNumeric_def Let_def split: option.splits)

text \<open>
  Claim C6. The normaliser takes these exact values: \<open>"L"\<close> is 9, \<open>"ml"\<close> is 6 (any
  spelling of the three letter codes that upper-cases to \<open>L\<close>, \<open>ML\<close>, \<open>NL\<close> gives 9, 6,
  3), \<open>"NL"\<close> is 3, \<open>"85"\<close> is 8.5, \<open>"7"\<close> is 7, and \<open>"abc"\<close> and the empty string give
  none. In general a cell that is not a letter code and parses to \<open>v\<close> gives
  \<open>v / 100 * 10\<close> when \<open>v\<close> exceeds 10 and \<open>v\<close> itself otherwise.
\<close>

theorem normalize_exact_values:
  "convertGradeToNumeric ''L'' = Some 9 \<and>
   convertGradeToNumeric ''ml'' = Some 6 \<and>
   convertGradeToNumeric ''NL'' = Some 3 \<and>
   convertGradeToNumeric ''85'' = Some (17 / 2) \<and>
   convertGradeToNumeric ''7'' = Some 7 \<and>
   convertGradeToNumeric ''abc'' = None \<and>
   convertGradeToNumeric '''' = None \<and>
   (\<forall>g. toUpperCase g = ''L'' \<longrightarrow> convertGradeToNumeric g = Some 9) \<and>
   (\<forall>g. toUpperCase g = ''ML'' \<longrightarrow> convertGradeToNumeric g = Some 6) \<and>
   (\<forall>g. toUpperCase g = ''NL'' \<longrightarrow> convertGradeToNumeric g = Some 3) \<and>
   (\<forall>g v. \<not> isQualitativeGrade g \<and> parseFloat (toUpperCase g) = Some v \<longrightarrow>
      convertGradeToNumeric g = Some (if v > 10 then v / 100 * 10 else v))"
proof -
  have 1: "convertGradeToNumeric ''L'' = Some 9" by code_simp
  have 2: "convertGradeToNumeric ''ml'' = Some 6" by code_simp
  have 3: "convertGradeToNumeric ''NL'' = Some 3" by code_simp
  have 4: "convertGradeToNumeric ''85'' = Some (17 / 2)" by code_simp
  have 5: "convertGradeToNumeric ''7'' = Some 7" by code_simp
  have 6: "convertGradeToNumeric ''abc'' = None" by code_simp
  have 7: "convertGradeToNumeric '''' = None" by code_simp
  have 8: "\<forall>g. toUpperCase g = ''L'' \<longrightarrow> convertGradeToNumeric g = Some 9"
    by (simp add: convertGradeToNumeric_def)
  have 9: "\<forall>g. toUpperCase g = ''ML'' \<longrightarrow> convertGradeToNumeric g = Some 6"
    by (simp add: convertGradeToNumeric_def)
  have 10: "\<forall>g. toUpperCase g = ''NL'' \<longrightarrow> convertGradeToNumeric g = Some 3"
    by (simp add: convertGradeToNumeric_def)
  have 11: "\<forall>g v. \<not> isQualitativeGrade g \<and> parseFloat (toUpperCase g) = Some v \<longrightarrow>
      convertGradeToNumeric g = Some (if v > 10 then v / 100 * 10 else v)"
    by (simp add: convert_not_qualitative)
  from 1 2 3 4 5 6 7 8 9 10 11 show ?thesis by blast
qed

theorem normalize_exact_values_witness:
  "\<not> isQualitativeGrade ''85'' \<and> parseFloat (toUpperCase ''85'') = Some 85 \<and>
   toUpperCase ''nl'' = ''NL'' \<and>
   convertGradeToNumeric ''85'' = Some (17 / 2) \<and> convertGradeToNumeric ''nl'' = Some 3"
proof -
  have a: "\<not> isQualitativeGrade ''85''" by code_simp
  have b: "parseFloat (toUpperCase ''85'') = Some 85" by code_simp
  have c: "toUpperCase ''nl'' = ''NL''" by code_simp
  from normalize_exact_values have r:
    "\<forall>g v. \<not> isQualitativeGrade g \<and> parseFloat (toUpperCase g) = Some v \<longrightarrow>
       convertGradeToNumeric g = Some (if v > 10 then v / 100 * 10 else v)"
    and n: "\<forall>g. toUpperCase g = ''NL'' \<longrightarrow> convertGradeToNumeric g = Some 3"
    by blast+
  from r a b have "convertGradeToNumeric ''85'' = Some (if (85::rat) > 10 then 85 / 100 * 10 else 85)"
    by blast
  then have d: "convertGradeToNumeric ''85'' = Some (17 / 2)" by simp
  from n c have e: "convertGradeToNumeric ''nl'' = Some 3" by blast
  from a b c d e show ?thesis by blast
qed

text \<open>
  Claim C4, as amended. The normaliser returns none or a number, and the number is in
  the interval from 1 to 9 exactly when the cell is a letter code, or parses to a value
  from 1 to 9, or parses to a value above 10 and at most 90. Nothing clamps the
  result: a parsed value of at most 10 is returned as it is, whatever it is, and a
  larger one is divided by 10.
\<close>

theorem normalize_range:
  "convertGradeToNumeric g = None \<or>
   (\<exists>v. convertGradeToNumeric g = Some v \<and>
      ((1 \<le> v \<and> v \<le> 9) \<longleftrightarrow>
         (isQualitativeGrade g \<or>
          (\<exists>p. parseFloat (toUpperCase g) = Some p \<and>
               (1 \<le> p \<and> p \<le> 9 \<or> 10 < p \<and> p \<le> 90)))))"
proof (cases "isQualitativeGrade g")
  case True
  from convert_qualitative[OF True] show ?thesis using True by auto
next
  case False
  show ?thesis
  proof (cases "parseFloat (toUpperCase g)")
    case None
    then show ?thesis using convert_not_qualitative[OF False] by simp
  next
    case (Some p)
    then show ?thesis using convert_not_qualitative[OF False] False by auto
  qed
qed

theorem normalize_range_witness:
  "parseFloat (toUpperCase ''85'') = Some 85 \<and>
   (\<exists>v. convertGradeToNumeric ''85'' = Some v \<and> 1 \<le> v \<and> v \<le> 9)"
proof -
  have b: "parseFloat (toUpperCase ''85'') = Some 85" by code_simp
  have c: "convertGradeToNumeric ''85'' \<noteq> None" by code_simp
  from normalize_range[of "''85''"] b c
  have "\<exists>v. convertGradeToNumeric ''85'' = Some v \<and> 1 \<le> v \<and> v \<le> 9" by auto
  with b show ?thesis by blast
qed

text \<open>
  Claim C4 as stated fails: the cell \<open>"10"\<close> normalises to 10, above 9, and the cell \<open>"0"\<close>
  to 0, below 1.
\<close>

theorem normalize_range_counterexample:
  "\<not> (\<forall>g. convertGradeToNumeric g = None \<or>
          (\<exists>v. convertGradeToNumeric g = Some v \<and> 1 \<le> v \<and> v \<le> 9)) \<and>
   convertGradeToNumeric ''10'' = Some 10 \<and> convertGradeToNumeric ''0'' = Some 0"
proof -
  have a: "convertGradeToNumeric ''10'' = Some 10" by code_simp
  have b: "convertGradeToNumeric ''0'' = Some 0" by code_simp
  have "\<not> (convertGradeToNumeric ''10'' = None \<or>
          (\<exists>v. convertGradeToNumeric ''10'' = Some v \<and> 1 \<le> v \<and> v \<le> 9))"
    by (simp add: a)
  then have "\<not> (\<forall>g. convertGradeToNumeric g = None \<or>
          (\<exists>v. convertGradeToNumeric g = Some v \<and> 1 \<le> v \<and> v \<le> 9))"
    by blast
  with a b show ?thesis by blast
qed




section \<open>Properties of the date range\<close>











section \<open>Properties of ingestion\<close>


lemma set_drop_nth: "set (drop n xs) = {xs ! i | i. n \<le> i \<and> i < length xs}"
proof -
  have "set (drop n xs) = {drop n xs ! i | i. i < length (drop n xs)}"
    by (simp add: set_conv_nth)
  also have "\<dots> = {xs ! i | i. n \<le> i \<and> i < length xs}"
  proof (intro set_eqI iffI)
    fix x assume "x \<in> {drop n xs ! i | i. i < length (drop n xs)}"
    then obtain i where i: "i < length xs - n" "x = drop n xs ! i" by auto
    then have "x = xs ! (n + i)" "n \<le> n + i" "n + i < length xs" by auto
    then show "x \<in> {xs ! i | i. n \<le> i \<and> i < length xs}" by blast
  next
    fix x assume "x \<in> {xs ! i | i. n \<le> i \<and> i < length xs}"
    then obtain i where i: "n \<le> i" "i < length xs" "x = xs ! i" by auto
    then have "i - n < length (drop n xs)" "x = drop n xs ! (i - n)" by auto
    then show "x \<in> {drop n xs ! i | i. i < length (drop n xs)}" by blast
  qed
  finally show ?thesis .
qed


lemma upt_1_Suc: "0 < n \<Longrightarrow> [1..<Suc n] = [1..<n] @ [n]"
  by simp

lemma foldl_upd_Some:
  "foldl (\<lambda>m j. if P j then m(k j \<mapsto> v j) else m) Map.empty [1..<n] d = Some e \<Longrightarrow>
   \<exists>j. 1 \<le> j \<and> j < n \<and> P j \<and> k j = d \<and> e = v j \<and>
       (\<forall>j'. j < j' \<and> j' < n \<and> P j' \<longrightarrow> k j' \<noteq> d)"
proof (induction n arbitrary: e)
  case 0
  then show ?case by simp
next
  case (Suc n)
  show ?case
  proof (cases "n = 0")
    case True
    with Suc.prems show ?thesis by simp
  next
    case False
    then have upt: "[1..<Suc n] = [1..<n] @ [n]" by simp
    show ?thesis
    proof (cases "P n \<and> k n = d")
      case True
      with Suc.prems have "e = v n" unfolding upt by simp
      with True False show ?thesis by (intro exI[of _ n]) auto
    next
      case nolast: False
      with Suc.prems have
        "foldl (\<lambda>m j. if P j then m(k j \<mapsto> v j) else m) Map.empty [1..<n] d = Some e"
        unfolding upt by (auto split: if_splits)
      from Suc.IH[OF this] obtain j where j: "1 \<le> j" "j < n" "P j" "k j = d" "e = v j"
        "\<forall>j'. j < j' \<and> j' < n \<and> P j' \<longrightarrow> k j' \<noteq> d" by blast
      have "\<forall>j'. j < j' \<and> j' < Suc n \<and> P j' \<longrightarrow> k j' \<noteq> d"
      proof (intro allI impI)
        fix j' assume a: "j < j' \<and> j' < Suc n \<and> P j'"
        show "k j' \<noteq> d"
        proof (cases "j' = n")
          case True
          with a nolast show ?thesis by blast
        next
          case False
          with a have "j' < n" by simp
          with a j(6) show ?thesis by blast
        qed
      qed
      with j show ?thesis by (intro exI[of _ j]) auto
    qed
  qed
qed

lemma foldl_upd_defined:
  "1 \<le> j \<Longrightarrow> j < n \<Longrightarrow> P j \<Longrightarrow>
   foldl (\<lambda>m j. if P j then m(k j \<mapsto> v j) else m) Map.empty [1..<n] (k j) \<noteq> None"
proof (induction n)
  case 0
  then show ?case by simp
next
  case (Suc n)
  then have "0 < n" by simp
  then have upt: "[1..<Suc n] = [1..<n] @ [n]" by simp
  show ?case
  proof (cases "j = n")
    case True
    with Suc.prems show ?thesis unfolding upt by simp
  next
    case False
    with Suc.prems have "j < n" by simp
    from Suc.IH[OF Suc.prems(1) this Suc.prems(3)] show ?thesis
      unfolding upt by simp
  qed
qed

lemma valid_Some:
  assumes "validActivityColumns jsonSheet d = Some b"
  shows "\<exists>j. 1 \<le> j \<and> j < length (headersOf jsonSheet) \<and> datesOf jsonSheet ! (j - 1) = d \<and>
            b = hasValidGrade jsonSheet j \<and>
            (\<forall>j'. j < j' \<and> j' < length (headersOf jsonSheet) \<longrightarrow> datesOf jsonSheet ! (j' - 1) \<noteq> d)"
  using foldl_upd_Some[where P = "\<lambda>_. True" and k = "\<lambda>j. datesOf jsonSheet ! (j - 1)"
      and v = "hasValidGrade jsonSheet" and n = "length (headersOf jsonSheet)" and d = d and e = b]
    assms
  by (simp add: validActivityColumns_def)



lemma studentGrades_Some:
  assumes "studentGrades jsonSheet row d = Some e"
  shows "\<exists>j. 1 \<le> j \<and> j < length (headersOf jsonSheet) \<and> datesOf jsonSheet ! (j - 1) = d \<and>
            validActivityColumns jsonSheet d = Some True \<and>
            e = \<lparr>topic = trim (cell (topicsOf jsonSheet) j), grade = trim (cell row j)\<rparr> \<and>
            (\<forall>j'. j < j' \<and> j' < length (headersOf jsonSheet) \<longrightarrow> datesOf jsonSheet ! (j' - 1) \<noteq> d)"
proof -
  from foldl_upd_Some[where P = "\<lambda>j. validActivityColumns jsonSheet (datesOf jsonSheet ! (j - 1)) = Some True"
      and k = "\<lambda>j. datesOf jsonSheet ! (j - 1)"
      and v = "\<lambda>j. \<lparr>topic = trim (cell (topicsOf jsonSheet) j), grade = trim (cell row j)\<rparr>"
      and n = "length (headersOf jsonSheet)" and d = d and e = e] assms
  obtain j where j: "1 \<le> j" "j < length (headersOf jsonSheet)"
    "validActivityColumns jsonSheet (datesOf jsonSheet ! (j - 1)) = Some True"
    "datesOf jsonSheet ! (j - 1) = d"
    "e = \<lparr>topic = trim (cell (topicsOf jsonSheet) j), grade = trim (cell row j)\<rparr>"
    "\<forall>j'. j < j' \<and> j' < length (headersOf jsonSheet) \<and>
        validActivityColumns jsonSheet (datesOf jsonSheet ! (j' - 1)) = Some True \<longrightarrow>
        datesOf jsonSheet ! (j' - 1) \<noteq> d"
    unfolding studentGrades_def Let_def by blast
  have "\<forall>j'. j < j' \<and> j' < length (headersOf jsonSheet) \<longrightarrow> datesOf jsonSheet ! (j' - 1) \<noteq> d"
    using j(3,4,6) by metis
  with j show ?thesis by blast
qed

lemma studentGrades_defined:
  assumes "validActivityColumns jsonSheet d = Some True"
  shows "studentGrades jsonSheet row d \<noteq> None"
proof -
  from valid_Some[OF assms] obtain j where j: "1 \<le> j" "j < length (headersOf jsonSheet)"
    "datesOf jsonSheet ! (j - 1) = d" by blast
  from foldl_upd_defined[where P = "\<lambda>j. validActivityColumns jsonSheet (datesOf jsonSheet ! (j - 1)) = Some True"
      and k = "\<lambda>j. datesOf jsonSheet ! (j - 1)"
      and v = "\<lambda>j. \<lparr>topic = trim (cell (topicsOf jsonSheet) j), grade = trim (cell row j)\<rparr>"
      and n = "length (headersOf jsonSheet)" and j = j] j assms
  show ?thesis unfolding studentGrades_def Let_def by simp
qed

lemma studentGrades_dom:
  "studentGrades jsonSheet row d \<noteq> None \<longleftrightarrow> validActivityColumns jsonSheet d = Some True"
  using studentGrades_Some studentGrades_defined by blast


lemma pushStudent_foldl:
  "foldl (pushStudent jsonSheet) acc rows =
     acc @ map (\<lambda>row. \<lparr>studentName = trim (cell row 0), grades = studentGrades jsonSheet row\<rparr>)
             (filter (\<lambda>row. trim (cell row 0) \<noteq> []) rows)"
  by (induction rows arbitrary: acc) (auto simp: pushStudent_def)

lemma processXLSXSheetData_records:
  assumes "processXLSXSheetData jsonSheet = Inr (data, dates)"
  shows "3 \<le> length jsonSheet \<and> dates = datesOf jsonSheet \<and>
         data = map (\<lambda>row. \<lparr>studentName = trim (cell row 0), grades = studentGrades jsonSheet row\<rparr>)
                  (filter (\<lambda>row. trim (cell row 0) \<noteq> []) (drop 2 jsonSheet))"
  using assms by (auto simp: processXLSXSheetData_def pushStudent_foldl split: if_splits)

lemma record_of_row:
  assumes "processXLSXSheetData jsonSheet = Inr (data, dates)" "r \<in> set data"
  shows "dates = datesOf jsonSheet \<and>
         (\<exists>i. 2 \<le> i \<and> i < length jsonSheet \<and> trim (cell (jsonSheet ! i) 0) \<noteq> [] \<and>
              r = \<lparr>studentName = trim (cell (jsonSheet ! i) 0),
                   grades = studentGrades jsonSheet (jsonSheet ! i)\<rparr>)"
proof -
  from processXLSXSheetData_records[OF assms(1)] assms(2)
  obtain row where row: "dates = datesOf jsonSheet" "row \<in> set (drop 2 jsonSheet)"
    "trim (cell row 0) \<noteq> []"
    "r = \<lparr>studentName = trim (cell row 0), grades = studentGrades jsonSheet row\<rparr>"
    by auto
  from row(2) obtain i where "2 \<le> i" "i < length jsonSheet" "row = jsonSheet ! i"
    unfolding set_drop_nth by blast
  with row show ?thesis by blast
qed



text \<open>
  Claim C2, as amended. For every sheet that ingestion accepts and every student record
  it produces, the record has an entry for a date label exactly when that label's
  stored flag is true, whether the student's cell is blank or not. The entry holds the
  trimmed topic and the trimmed cell of the last column carrying the label, so a blank
  cell in an active column is stored with the empty string as its raw grade.
\<close>

theorem record_entries_follow_flags:
  assumes "processXLSXSheetData jsonSheet = Inr (data, dates)" and "r \<in> set data"
  shows "(grades r d \<noteq> None \<longleftrightarrow> validActivityColumns jsonSheet d = Some True) \<and>
         (\<exists>i. 2 \<le> i \<and> i < length jsonSheet \<and> studentName r = trim (cell (jsonSheet ! i) 0) \<and>
              (\<forall>l e. grades r l = Some e \<longrightarrow>
                 (\<exists>j. 1 \<le> j \<and> j < length (headersOf jsonSheet) \<and> dates ! (j - 1) = l \<and>
                      (\<forall>j'. j < j' \<and> j' < length (headersOf jsonSheet) \<longrightarrow> dates ! (j' - 1) \<noteq> l) \<and>
                      e = \<lparr>topic = trim (cell (topicsOf jsonSheet) j),
                           grade = trim (cell (jsonSheet ! i) j)\<rparr>)))"
proof -
  from record_of_row[OF assms] obtain i where i: "dates = datesOf jsonSheet" "2 \<le> i"
    "i < length jsonSheet"
    "r = \<lparr>studentName = trim (cell (jsonSheet ! i) 0),
          grades = studentGrades jsonSheet (jsonSheet ! i)\<rparr>" by blast
  have 1: "grades r d \<noteq> None \<longleftrightarrow> validActivityColumns jsonSheet d = Some True"
    using i(4) studentGrades_dom[of jsonSheet "jsonSheet ! i" d] by simp
  have 2: "\<forall>l e. grades r l = Some e \<longrightarrow>
                 (\<exists>j. 1 \<le> j \<and> j < length (headersOf jsonSheet) \<and> dates ! (j - 1) = l \<and>
                      (\<forall>j'. j < j' \<and> j' < length (headersOf jsonSheet) \<longrightarrow> dates ! (j' - 1) \<noteq> l) \<and>
                      e = \<lparr>topic = trim (cell (topicsOf jsonSheet) j),
                           grade = trim (cell (jsonSheet ! i) j)\<rparr>)"
  proof (intro allI impI)
    fix l e assume "grades r l = Some e"
    with i(4) have "studentGrades jsonSheet (jsonSheet ! i) l = Some e" by simp
    from studentGrades_Some[OF this] i(1)
    show "\<exists>j. 1 \<le> j \<and> j < length (headersOf jsonSheet) \<and> dates ! (j - 1) = l \<and>
              (\<forall>j'. j < j' \<and> j' < length (headersOf jsonSheet) \<longrightarrow> dates ! (j' - 1) \<noteq> l) \<and>
              e = \<lparr>topic = trim (cell (topicsOf jsonSheet) j),
                   grade = trim (cell (jsonSheet ! i) j)\<rparr>"
      by blast
  qed
  have 3: "studentName r = trim (cell (jsonSheet ! i) 0)" using i(4) by simp
  from 1 2 3 i(2,3) show ?thesis by blast
qed

theorem record_entries_follow_flags_witness:
  "processXLSXSheetData scenarioSheet =
     Inr (foldl (pushStudent scenarioSheet) [] (drop 2 scenarioSheet), [''D1'', ''D2'']) \<and>
   foldl (pushStudent scenarioSheet) [] (drop 2 scenarioSheet) ! 1 \<in>
     set (foldl (pushStudent scenarioSheet) [] (drop 2 scenarioSheet)) \<and>
   studentName (foldl (pushStudent scenarioSheet) [] (drop 2 scenarioSheet) ! 1) = ''Beto'' \<and>
   validActivityColumns scenarioSheet ''D1'' = Some True \<and>
   grades (foldl (pushStudent scenarioSheet) [] (drop 2 scenarioSheet) ! 1) ''D1'' \<noteq> None"
proof -
  let ?data = "foldl (pushStudent scenarioSheet) [] (drop 2 scenarioSheet)"
  have rows: "length scenarioSheet = 4" by code_simp
  have dates: "datesOf scenarioSheet = [''D1'', ''D2'']" by code_simp
  have p: "processXLSXSheetData scenarioSheet = Inr (?data, [''D1'', ''D2''])"
    by (simp add: processXLSXSheetData_def rows dates)
  have len: "length ?data = 2" by code_simp
  then have m: "?data ! 1 \<in> set ?data" by simp
  have n: "studentName (?data ! 1) = ''Beto''" by code_simp
  have v: "validActivityColumns scenarioSheet ''D1'' = Some True" by code_simp
  from record_entries_follow_flags[OF p m, of "''D1''"] v
  have g: "grades (?data ! 1) ''D1'' \<noteq> None" by blast
  show ?thesis by (intro conjI p m n v g)
qed

text \<open>
  Claim C2 as stated fails: in the scenario sheet Beto's cell under \<open>D1\<close> is blank, and
  his record has an entry for \<open>D1\<close> whose raw grade is the empty string.
\<close>

theorem record_entries_counterexample:
  "trim (cell (scenarioSheet ! 3) 1) = [] \<and>
   map_sum id (\<lambda>(data, dates).
       map (\<lambda>r. (studentName r, map_option grade (grades r ''D1''))) data)
     (processXLSXSheetData scenarioSheet) =
   Inr [(''Ana'', Some ''L''), (''Beto'', Some [])]"
proof -
  have 1: "trim (cell (scenarioSheet ! 3) 1) = []" by code_simp
  have 2: "map_sum id (\<lambda>(data, dates).
       map (\<lambda>r. (studentName r, map_option grade (grades r ''D1''))) data)
     (processXLSXSheetData scenarioSheet) =
   Inr [(''Ana'', Some ''L''), (''Beto'', Some [])]" by code_simp
  show ?thesis by (intro conjI 1 2)
qed

section \<open>Properties of the analysis\<close>















subsection \<open>The text of toFixed(2)\<close>

lemma isDigit_digitChar:
  assumes "d < 10"
  shows "isDigit (digitChar d)"
proof -
  have "''0123456789'' ! d \<in> set ''0123456789''" using assms by (intro nth_mem) simp
  then show ?thesis by (simp only: digitChar_def isDigit_def)
qed

lemma decimalDigits_all_digits: "\<forall>c \<in> set (decimalDigits n). isDigit c"
proof (induction n rule: decimalDigits.induct)
  case (1 n)
  show ?case
  proof (cases "n < 10")
    case True
    then show ?thesis by (simp add: decimalDigits.simps[of n] isDigit_digitChar)
  next
    case False
    have "n mod 10 < 10" by simp
    with "1.IH"[OF False] False show ?thesis
      by (simp add: decimalDigits.simps[of n] isDigit_digitChar)
  qed
qed

lemma padTo3_length: "3 \<le> length (padTo3 ds)"
  by (simp add: padTo3_def)

lemma padTo3_digits:
  assumes "\<forall>c \<in> set ds. isDigit c"
  shows "\<forall>c \<in> set (padTo3 ds). isDigit c"
proof -
  have z: "isDigit (CHR ''0'')" by (simp add: isDigit_def)
  have "set (padTo3 ds) \<subseteq> insert (CHR ''0'') (set ds)" by (auto simp: padTo3_def)
  with z assms show ?thesis by blast
qed





lemma toFixed2_exponent:
  "10 ^ 21 \<le> \<bar>x\<bar> \<Longrightarrow> toFixed2 x = ExponentNotation x \<and> \<not> isTwoDecimalText (toFixed2 x)"
  by (simp add: toFixed2_def isTwoDecimalText_def)

subsection \<open>Averages\<close>




subsection \<open>Students at risk\<close>



subsection \<open>The best student\<close>




section \<open>Prefix parsing and what follows from it\<close>

lemma digit_not_special:
  assumes "isDigit c"
  shows "\<not> isWhiteSpace c" "c \<noteq> CHR ''-''" "c \<noteq> CHR ''+''" "c \<noteq> CHR ''.''"
  using assms by (auto simp: isDigit_def isWhiteSpace_def)

lemma span_digits:
  assumes "\<forall>c \<in> set ds. isDigit c" and "rest = [] \<or> \<not> isDigit (hd rest)"
  shows "takeWhile isDigit (ds @ rest) = ds" "dropWhile isDigit (ds @ rest) = rest"
proof -
  have t: "takeWhile isDigit rest = []" and d: "dropWhile isDigit rest = rest"
    using assms(2) by (cases rest; simp)+
  from assms(1) show "takeWhile isDigit (ds @ rest) = ds"
    by (simp add: takeWhile_append2 t)
  from assms(1) show "dropWhile isDigit (ds @ rest) = rest"
    by (simp add: dropWhile_append2 d)
qed

lemma readExponent_none:
  assumes "rest = [] \<or> (hd rest \<noteq> CHR ''E'' \<and> hd rest \<noteq> CHR ''e'')"
  shows "readExponent rest = 0"
  using assms by (cases rest) (auto simp: readExponent_def)


lemma parseFloat_fraction_prefix:
  assumes ne: "ds \<noteq> []" and dig: "\<forall>c \<in> set ds. isDigit c" and fdig: "\<forall>c \<in> set fs. isDigit c"
    and rest: "rest = [] \<or> (\<not> isDigit (hd rest) \<and> hd rest \<noteq> CHR ''E'' \<and> hd rest \<noteq> CHR ''e'')"
  shows "parseFloat (ds @ ''.'' @ fs @ rest) =
           Some (of_nat (digitsValue ds) + of_nat (digitsValue fs) / 10 ^ length fs)"
proof -
  from ne obtain c cs where ds: "ds = c # cs" by (cases ds) auto
  with dig have c: "isDigit c" by simp
  have "\<not> isDigit (CHR ''.'')" by (simp add: isDigit_def)
  then have sp: "takeWhile isDigit (ds @ ''.'' @ fs @ rest) = ds"
    "dropWhile isDigit (ds @ ''.'' @ fs @ rest) = ''.'' @ fs @ rest"
    using span_digits[OF dig, of "''.'' @ fs @ rest"] by simp_all
  have sf: "takeWhile isDigit (fs @ rest) = fs" "dropWhile isDigit (fs @ rest) = rest"
    using span_digits[OF fdig] rest by blast+
  have ex: "readExponent rest = 0" using readExponent_none rest by blast
  have "readFraction (digitsValue ds) (fs @ rest) =
      of_nat (digitsValue ds) + of_nat (digitsValue fs) / 10 ^ length fs"
    by (simp add: readFraction_def Let_def sf ex scaleByExponent_def)
  then have ru: "readUnsigned (ds @ ''.'' @ fs @ rest) =
      Some (of_nat (digitsValue ds) + of_nat (digitsValue fs) / 10 ^ length fs)"
    using sp ne by (simp add: readUnsigned_def Let_def)
  have "parseFloat (ds @ ''.'' @ fs @ rest) = readUnsigned (ds @ ''.'' @ fs @ rest)"
    using digit_not_special[OF c] by (simp add: parseFloat_def ds)
  with ru show ?thesis by simp
qed















section \<open>The rounding of chart points always parses\<close>

lemma parseFloat_after_digit:
  assumes "ip \<noteq> []" and "\<forall>c \<in> set ip. isDigit c"
  shows "parseFloat (ip @ r) = readUnsigned (ip @ r)"
    and "parseFloat (CHR ''-'' # ip @ r) = map_option uminus (readUnsigned (ip @ r))"
proof -
  from assms obtain c cs where ip: "ip = c # cs" and c: "isDigit c" by (cases ip) auto
  show "parseFloat (ip @ r) = readUnsigned (ip @ r)"
    using digit_not_special[OF c] by (simp add: parseFloat_def ip)
  show "parseFloat (CHR ''-'' # ip @ r) = map_option uminus (readUnsigned (ip @ r))"
    by (simp add: parseFloat_def isWhiteSpace_def)
qed

lemma parseFloat_fixed_shape:
  assumes len: "3 \<le> length m" and dig: "\<forall>c \<in> set m. isDigit c"
    and sg: "sg = ''-'' \<or> sg = []"
  shows "parseFloat (sg @ take (length m - 2) m @ ''.'' @ drop (length m - 2) m) \<noteq> None"
proof -
  let ?ip = "take (length m - 2) m"
  let ?fs = "drop (length m - 2) m"
  have ne: "?ip \<noteq> []" using len by auto
  have di: "\<forall>c \<in> set ?ip. isDigit c" using dig by (auto dest: in_set_takeD)
  have df: "\<forall>c \<in> set ?fs. isDigit c" using dig by (auto dest: in_set_dropD)
  have "parseFloat (?ip @ ''.'' @ ?fs @ []) \<noteq> None"
    using parseFloat_fraction_prefix[OF ne di df, of "[]"] by simp
  then have u: "parseFloat (?ip @ ''.'' @ ?fs) \<noteq> None" by simp
  with parseFloat_after_digit(1)[OF ne di, of "''.'' @ ?fs"]
  have ru: "readUnsigned (?ip @ ''.'' @ ?fs) \<noteq> None" by simp
  have neg: "parseFloat (''-'' @ ?ip @ ''.'' @ ?fs) \<noteq> None"
    using parseFloat_after_digit(2)[OF ne di, of "''.'' @ ?fs"] ru by simp
  from sg u neg show ?thesis by auto
qed

lemma parseNumberText_toFixed2: "parseNumberText (toFixed2 v) \<noteq> None"
proof (cases "10 ^ 21 \<le> \<bar>v\<bar>")
  case True
  then show ?thesis by (simp add: toFixed2_def parseNumberText_def)
next
  case False
  define m where "m = padTo3 (decimalDigits (nat \<lfloor>\<bar>v\<bar> * 100 + 1 / 2\<rfloor>))"
  define sg where "sg = (if v < 0 then ''-'' else [])"
  have len: "3 \<le> length m" unfolding m_def by (rule padTo3_length)
  have dig: "\<forall>c \<in> set m. isDigit c"
    unfolding m_def by (rule padTo3_digits[OF decimalDigits_all_digits])
  have sg: "sg = ''-'' \<or> sg = []" by (simp add: sg_def)
  have "toFixed2 v = Fixed (sg @ take (length m - 2) m @ ''.'' @ drop (length m - 2) m)"
    using False unfolding m_def sg_def by (simp add: toFixed2_def Let_def)
  with parseFloat_fixed_shape[OF len dig sg] show ?thesis
    by (simp add: parseNumberText_def)
qed

end
